theory Spec2Isabelle
  imports Main "HOL-Library.Word" "HOL-Library.Multiset"
begin

unbundle bit_operations_syntax

section \<open>Data model of algorithms.c\<close>

subsection \<open>The C type float: IEEE 754 binary32 bit patterns\<close>

text \<open>
  A C \<open>float\<close> is modelled by its 32-bit pattern: bit 31 is the sign, bits 30..23 the
  biased exponent, bits 22..0 the fraction. Two patterns are the same stored object exactly
  when the words are equal, which is what a sort that moves records around preserves; the
  C operators \<open><\<close>, \<open>>\<close>, \<open>==\<close> and \<open>>=\<close> compare the values the patterns denote.
\<close>

type_synonym float32 = "32 word"

definition fsign :: "float32 \<Rightarrow> bool" where
  "fsign w = bit w 31"

definition fmag :: "float32 \<Rightarrow> int" where
  "fmag w = uint (w AND 0x7FFFFFFF)"

text \<open>NaN: exponent field all ones and a non-zero fraction.\<close>

definition is_nan :: "float32 \<Rightarrow> bool" where
  "is_nan w = (fmag w > 0x7F800000)"

text \<open>
  The value a pattern denotes, as a multiple of the smallest subnormal \<open>2^-149\<close>: with
  exponent field \<open>e\<close> and fraction \<open>m\<close> the magnitude is \<open>m\<close> when \<open>e = 0\<close> and
  \<open>(2^23 + m) * 2^(e - 1)\<close> otherwise. \<open>+0.0\<close> and \<open>-0.0\<close> both denote 0; the two
  infinities get the magnitude \<open>2^128\<close>, beyond every finite float.
\<close>

definition fscaled :: "float32 \<Rightarrow> int" where
  "fscaled w =
     (let e = fmag w div 2 ^ 23; m = fmag w mod 2 ^ 23
      in if e = 0 then m else (2 ^ 23 + m) * 2 ^ nat (e - 1))"

definition fval :: "float32 \<Rightarrow> int" where
  "fval w = (if fsign w then - fscaled w else fscaled w)"

text \<open>The C comparison operators on float: every comparison with a NaN operand is false.\<close>

definition flt :: "float32 \<Rightarrow> float32 \<Rightarrow> bool" where
  "flt a b = (\<not> is_nan a \<and> \<not> is_nan b \<and> fval a < fval b)"

definition fgt :: "float32 \<Rightarrow> float32 \<Rightarrow> bool" where
  "fgt a b = (\<not> is_nan a \<and> \<not> is_nan b \<and> fval a > fval b)"

definition feq :: "float32 \<Rightarrow> float32 \<Rightarrow> bool" where
  "feq a b = (\<not> is_nan a \<and> \<not> is_nan b \<and> fval a = fval b)"

definition fge :: "float32 \<Rightarrow> float32 \<Rightarrow> bool" where
  "fge a b = (\<not> is_nan a \<and> \<not> is_nan b \<and> fval a \<ge> fval b)"

text \<open>The literal \<open>0.0f\<close>.\<close>

definition fzero :: float32 where
  "fzero = 0"

subsection \<open>Floating-point arithmetic\<close>

text \<open>
  The results of \<open>+\<close>, \<open>*\<close> and \<open>/\<close> on float depend on the rounding mode and the
  evaluation method of the platform, so the routines below take the three operations as a
  parameter. \<open>ieee_fpu\<close> further down is the usual instance: binary32 arithmetic with
  round-to-nearest, ties-to-even.
\<close>

record fpu =
  fadd :: "float32 \<Rightarrow> float32 \<Rightarrow> float32"
  fmul :: "float32 \<Rightarrow> float32 \<Rightarrow> float32"
  fdiv :: "float32 \<Rightarrow> float32 \<Rightarrow> float32"

definition is_inf :: "float32 \<Rightarrow> bool" where
  "is_inf w = (fmag w = 0x7F800000)"

definition is_zero :: "float32 \<Rightarrow> bool" where
  "is_zero w = (fmag w = 0)"

text \<open>
  NaN results, as x86-64 SSE arithmetic gives them: a NaN operand is passed on with its
  quiet bit set (the first operand when both are NaN), and an invalid operation such as
  \<open>0.0 / 0.0\<close> gives the default NaN \<open>0xFFC00000\<close>. Other platforms differ in the sign
  and payload of a NaN result.
\<close>

definition default_nan :: float32 where
  "default_nan = 0xFFC00000"

definition nan_operand :: "float32 \<Rightarrow> float32 \<Rightarrow> float32" where
  "nan_operand a b = (if is_nan a then a OR 0x00400000 else b OR 0x00400000)"

definition with_sign :: "bool \<Rightarrow> int \<Rightarrow> float32" where
  "with_sign s mag = (if s then 0x80000000 OR word_of_int mag else word_of_int mag)"

text \<open>
  \<open>binade f n d\<close> counts how often \<open>d\<close> must be doubled until \<open>n / d < 2^24\<close>, giving
  up after \<open>f\<close> doublings (255 are enough: the result then overflows to infinity).
\<close>

fun binade :: "nat \<Rightarrow> int \<Rightarrow> int \<Rightarrow> nat" where
  "binade 0 n d = 0"
| "binade (Suc f) n d = (if n < d * 2 ^ 24 then 0 else Suc (binade f n (2 * d)))"

text \<open>Nearest integer to \<open>n / d\<close>, ties to even.\<close>

definition round_half_even :: "int \<Rightarrow> int \<Rightarrow> int" where
  "round_half_even n d =
     (let q = n div d; r = n mod d
      in if 2 * r < d then q
         else if d < 2 * r then q + 1
         else if even q then q else q + 1)"

text \<open>
  The magnitude bits of the float nearest to \<open>(n / d) * 2^-149\<close>: in binade \<open>e\<close> one unit
  in the last place is \<open>2^e * 2^-149\<close>, and exponent field and significand add up to
  \<open>e * 2^23 + k\<close> for the rounded significand \<open>k\<close>, also when \<open>k\<close> is subnormal or rounds
  up to \<open>2^24\<close>. Anything at or beyond the infinity pattern is infinity.
\<close>

definition round_mag :: "int \<Rightarrow> int \<Rightarrow> int" where
  "round_mag n d =
     (let e = binade 255 n d;
          bits = int e * 2 ^ 23 + round_half_even n (d * 2 ^ e)
      in if bits \<ge> 0x7F800000 then 0x7F800000 else bits)"

definition ieee_add :: "float32 \<Rightarrow> float32 \<Rightarrow> float32" where
  "ieee_add a b =
     (if is_nan a \<or> is_nan b then nan_operand a b
      else if is_inf a \<and> is_inf b \<and> fsign a \<noteq> fsign b then default_nan
      else if is_inf a then a
      else if is_inf b then b
      else let s = fval a + fval b
           in if s = 0 then with_sign (fsign a \<and> fsign b) 0
              else with_sign (s < 0) (round_mag \<bar>s\<bar> 1))"

definition ieee_mul :: "float32 \<Rightarrow> float32 \<Rightarrow> float32" where
  "ieee_mul a b =
     (let s = (fsign a \<noteq> fsign b)
      in if is_nan a \<or> is_nan b then nan_operand a b
         else if (is_inf a \<and> is_zero b) \<or> (is_zero a \<and> is_inf b) then default_nan
         else if is_inf a \<or> is_inf b then with_sign s 0x7F800000
         else with_sign s (round_mag (fscaled a * fscaled b) (2 ^ 149)))"

definition ieee_div :: "float32 \<Rightarrow> float32 \<Rightarrow> float32" where
  "ieee_div a b =
     (let s = (fsign a \<noteq> fsign b)
      in if is_nan a \<or> is_nan b then nan_operand a b
         else if (is_inf a \<and> is_inf b) \<or> (is_zero a \<and> is_zero b) then default_nan
         else if is_inf a \<or> is_zero b then with_sign s 0x7F800000
         else if is_inf b \<or> is_zero a then with_sign s 0
         else with_sign s (round_mag (fscaled a * 2 ^ 149) (fscaled b)))"

definition ieee_fpu :: fpu where
  "ieee_fpu = \<lparr> fadd = ieee_add, fmul = ieee_mul, fdiv = ieee_div \<rparr>"

subsection \<open>The record DesempenhoAluno\<close>

record DesempenhoAluno =
  id_aluno :: "32 word"
  media_final :: float32

subsection \<open>comparar_desempenho\<close>

text \<open>
  The comparison callback handed to qsort. The two \<open>const void *\<close> arguments are the
  records they point to; the result is the C int 1, -1 or 0.
\<close>

definition comparar_desempenho :: "DesempenhoAluno \<Rightarrow> DesempenhoAluno \<Rightarrow> int" where
  "comparar_desempenho alunoA alunoB =
     (if flt (media_final alunoA) (media_final alunoB) then 1
      else if fgt (media_final alunoA) (media_final alunoB) then - 1
      else 0)"

section \<open>calcular_media_ponderada\<close>

text \<open>
  The ways a call can leave defined behaviour: reading through a null pointer, or reading
  or sorting beyond the extent of the array the pointer refers to.
\<close>

datatype fault = NullDeref | OutOfBounds

text \<open>
  A pointer to an array is \<open>None\<close> for \<open>NULL\<close> and \<open>Some xs\<close> for an array holding
  \<open>xs\<close>; \<open>read_at p i\<close> is the read \<open>p[i]\<close>.
\<close>

definition read_at :: "'a list option \<Rightarrow> int \<Rightarrow> fault + 'a" where
  "read_at p i =
     (case p of
        None \<Rightarrow> Inl NullDeref
      | Some xs \<Rightarrow> if 0 \<le> i \<and> i < int (length xs) then Inr (xs ! nat i) else Inl OutOfBounds)"

text \<open>
  The for loop, from the state in which the index is \<open>i\<close> and the two accumulators are
  \<open>(soma_produtos, soma_pesos)\<close>. The index stays below \<open>count\<close>, so \<open>i++\<close> cannot
  overflow and \<open>count\<close> and \<open>i\<close> are plain integers (\<open>count'\<close> is the parameter
  \<open>count\<close>).
\<close>

function media_loop ::
  "fpu \<Rightarrow> float32 list option \<Rightarrow> float32 list option \<Rightarrow> int \<Rightarrow> int
    \<Rightarrow> float32 \<times> float32 \<Rightarrow> fault + float32 \<times> float32" where
  "media_loop F notas pesos count' i (soma_produtos, soma_pesos) =
     (if i < count' then
        (case read_at notas i of
           Inl e \<Rightarrow> Inl e
         | Inr nota \<Rightarrow>
             (case read_at pesos i of
                Inl e \<Rightarrow> Inl e
              | Inr peso \<Rightarrow>
                  media_loop F notas pesos count' (i + 1)
                    (fadd F soma_produtos (fmul F nota peso), fadd F soma_pesos peso)))
      else Inr (soma_produtos, soma_pesos))"
  by pat_completeness auto
termination
  by (relation "measure (\<lambda>(F, notas, pesos, count', i, acc). nat (count' - i))") auto

declare media_loop.simps [simp del]

definition calcular_media_ponderada ::
  "fpu \<Rightarrow> float32 list option \<Rightarrow> float32 list option \<Rightarrow> int \<Rightarrow> fault + float32" where
  "calcular_media_ponderada F notas pesos count' =
     (if count' \<le> 0 then Inr fzero
      else
        (case media_loop F notas pesos count' 0 (fzero, fzero) of
           Inl e \<Rightarrow> Inl e
         | Inr (soma_produtos, soma_pesos) \<Rightarrow>
             if feq soma_pesos fzero then Inr fzero
             else Inr (fdiv F soma_produtos soma_pesos)))"

text \<open>
  The two sums as the specification words them: accumulated from \<open>0.0\<close> in the order of
  the indices \<open>0 .. count - 1\<close>, the product rounded before it is added.
\<close>

definition soma_produtos_spec :: "fpu \<Rightarrow> float32 list \<Rightarrow> float32 list \<Rightarrow> nat \<Rightarrow> float32" where
  "soma_produtos_spec F scores weights n =
     foldl (\<lambda>s i. fadd F s (fmul F (scores ! i) (weights ! i))) fzero [0..<n]"

definition soma_pesos_spec :: "fpu \<Rightarrow> float32 list \<Rightarrow> nat \<Rightarrow> float32" where
  "soma_pesos_spec F weights n = foldl (\<lambda>s i. fadd F s (weights ! i)) fzero [0..<n]"

section \<open>ordenar_por_desempenho\<close>

subsection \<open>The library function qsort\<close>

text \<open>
  \<open>qsort\<close> belongs to the C library, so the sorting routine takes it as a parameter:
  a function from the comparison callback and the \<open>nmemb\<close> elements to be sorted to the
  elements as it leaves them, together with the number of times it called the callback.
\<close>

type_synonym 'a qsort_fn = "('a \<Rightarrow> 'a \<Rightarrow> int) \<Rightarrow> 'a list \<Rightarrow> 'a list \<times> nat"

text \<open>
  What ISO C asks of the callback: its answers on the elements of the array are consistent
  with one another, that is, they define a total ordering of them.
\<close>

definition compar_consistent :: "('a \<Rightarrow> 'a \<Rightarrow> int) \<Rightarrow> 'a set \<Rightarrow> bool" where
  "compar_consistent cmp A =
     ((\<forall>a\<in>A. \<forall>b\<in>A. (cmp a b < 0) = (0 < cmp b a)) \<and>
      (\<forall>a\<in>A. \<forall>b\<in>A. \<forall>c\<in>A. cmp a b \<le> 0 \<and> cmp b c \<le> 0 \<longrightarrow> cmp a c \<le> 0))"

text \<open>
  What ISO C promises in return: the array is sorted into ascending order according to
  the callback, with the order of elements that compare equal left unspecified.
\<close>

definition qsort_sorts :: "'a qsort_fn \<Rightarrow> bool" where
  "qsort_sorts qs =
     (\<forall>cmp xs. compar_consistent cmp (set xs) \<longrightarrow>
        sorted_wrt (\<lambda>a b. cmp a b \<le> 0) (fst (qs cmp xs)))"

text \<open>
  \<open>qsort\<close> only moves the elements of the array about. (For a callback that is not
  consistent ISO C promises nothing at all; the implementations in use still only exchange
  elements, and this is what \<open>qsort_permutes\<close> records.)
\<close>

definition qsort_permutes :: "'a qsort_fn \<Rightarrow> bool" where
  "qsort_permutes qs = (\<forall>cmp xs. mset (fst (qs cmp xs)) = mset xs)"

text \<open>
  A \<open>qsort\<close> may promise more than ISO C does and keep elements that compare equal in
  the order in which it found them, as the merge sort below does.
\<close>

definition qsort_stable :: "'a qsort_fn \<Rightarrow> bool" where
  "qsort_stable qs =
     (\<forall>cmp xs. compar_consistent cmp (set xs) \<longrightarrow>
        (\<forall>a\<in>set xs. filter (\<lambda>z. cmp a z = 0) (fst (qs cmp xs)) = filter (\<lambda>z. cmp a z = 0) xs))"

text \<open>
  One such \<open>qsort\<close>: the merge sort that the \<open>qsort\<close> of the GNU C library runs
  (\<open>msort_with_tmp\<close>). The array \<open>b\<close> of \<open>n\<close> elements is cut after \<open>n / 2\<close> elements,
  both parts are sorted, and the two runs are merged: the head of the left run is taken
  unless the callback returns a value above 0 for it against the head of the right run.
  Each step of the merge calls the callback once.
\<close>

fun merge_runs :: "('a \<Rightarrow> 'a \<Rightarrow> int) \<Rightarrow> 'a list \<Rightarrow> 'a list \<Rightarrow> 'a list \<times> nat" where
  "merge_runs cmp [] b2 = (b2, 0)"
| "merge_runs cmp (x # b1) [] = (x # b1, 0)"
| "merge_runs cmp (x # b1) (y # b2) =
     (if cmp x y \<le> 0
      then (let r = merge_runs cmp b1 (y # b2) in (x # fst r, Suc (snd r)))
      else (let r = merge_runs cmp (x # b1) b2 in (y # fst r, Suc (snd r))))"

function qsort_merge :: "'a qsort_fn" where
  "qsort_merge cmp b =
     (if length b \<le> 1 then (b, 0)
      else
        (let n1 = length b div 2;
             l = qsort_merge cmp (take n1 b);
             r = qsort_merge cmp (drop n1 b);
             m = merge_runs cmp (fst l) (fst r)
         in (fst m, snd l + snd r + snd m)))"
  by pat_completeness auto
termination
  by (relation "measure (\<lambda>(cmp, b). length b)") auto

declare qsort_merge.simps [simp del]

subsection \<open>The sorting routine\<close>

text \<open>
  The array is sorted in place: the result is the array as the call leaves it (\<open>None\<close> for
  a null pointer), together with the number of calls of \<open>comparar_desempenho\<close>. Elements
  beyond \<open>num_alunos\<close> are not touched; an array shorter than \<open>num_alunos\<close> makes qsort
  run beyond it.
\<close>

definition ordenar_por_desempenho ::
  "DesempenhoAluno qsort_fn \<Rightarrow> DesempenhoAluno list option \<Rightarrow> int
    \<Rightarrow> fault + DesempenhoAluno list option \<times> nat" where
  "ordenar_por_desempenho qs desempenhos num_alunos =
     (if desempenhos = None \<or> num_alunos \<le> 1 then Inr (desempenhos, 0)
      else
        (case desempenhos of
           None \<Rightarrow> Inl NullDeref
         | Some xs \<Rightarrow>
             if int (length xs) < num_alunos then Inl OutOfBounds
             else
               (let r = qs comparar_desempenho (take (nat num_alunos) xs)
                in Inr (Some (fst r @ drop (nat num_alunos) xs), snd r))))"

section \<open>Properties of the comparator\<close>

text \<open>
  Claim C6. \<open>comparar_desempenho\<close> returns a negative value exactly when the first
  record's \<open>media_final\<close> is greater than the second's, a positive value exactly when it
  is less, and 0 when the two scores are equal; changing the \<open>id_aluno\<close> fields never
  changes the answer.
\<close>

theorem comparar_desempenho_order:
  "(comparar_desempenho a b < 0 \<longleftrightarrow> fgt (media_final a) (media_final b)) \<and>
   (0 < comparar_desempenho a b \<longleftrightarrow> flt (media_final a) (media_final b)) \<and>
   (feq (media_final a) (media_final b) \<longrightarrow> comparar_desempenho a b = 0) \<and>
   comparar_desempenho (a\<lparr>id_aluno := ida\<rparr>) (b\<lparr>id_aluno := idb\<rparr>) = comparar_desempenho a b"
  by (auto simp: comparar_desempenho_def flt_def fgt_def feq_def)

text \<open>
  Claim C6 at the records (101, 8.5), (102, 8.5) and (102, 6.2): equal scores give 0,
  the greater score first gives a negative value.
\<close>

theorem comparar_desempenho_order_witness:
  "feq 0x41080000 0x41080000 \<and>
   comparar_desempenho \<lparr>id_aluno = 101, media_final = 0x41080000\<rparr>
     \<lparr>id_aluno = 102, media_final = 0x41080000\<rparr> = 0 \<and>
   comparar_desempenho \<lparr>id_aluno = 101, media_final = 0x41080000\<rparr>
     \<lparr>id_aluno = 102, media_final = 0x40C66666\<rparr> < 0 \<and>
   fgt 0x41080000 0x40C66666"
  using comparar_desempenho_order
    [of "\<lparr>id_aluno = 101, media_final = 0x41080000\<rparr>"
        "\<lparr>id_aluno = 102, media_final = 0x41080000\<rparr>" 101 102]
    comparar_desempenho_order
    [of "\<lparr>id_aluno = 101, media_final = 0x41080000\<rparr>"
        "\<lparr>id_aluno = 102, media_final = 0x40C66666\<rparr>" 101 102]
  by (simp add: feq_def fgt_def is_nan_def fmag_def fval_def fscaled_def fsign_def Let_def)

text \<open>
  Claim C10. When the score of a record is NaN, \<open>comparar_desempenho\<close> returns 0 with
  that record on either side, whatever the other record is. Such a record therefore fits
  anywhere: put at any position \<open>i\<close> of a sequence that is in the comparator's order, it
  leaves the sequence in the comparator's order.
\<close>

theorem comparar_desempenho_nan:
  assumes "is_nan (media_final r)"
  shows "comparar_desempenho r b = 0 \<and> comparar_desempenho a r = 0 \<and>
    (sorted_wrt (\<lambda>x y. comparar_desempenho x y \<le> 0) xs \<longrightarrow>
     sorted_wrt (\<lambda>x y. comparar_desempenho x y \<le> 0) (take i xs @ r # drop i xs))"
proof -
  have nan_eq: "comparar_desempenho r x = 0" "comparar_desempenho x r = 0" for x
    using assms by (simp_all add: comparar_desempenho_def flt_def fgt_def)
  have "sorted_wrt (\<lambda>x y. comparar_desempenho x y \<le> 0) (take i xs @ r # drop i xs)"
    if "sorted_wrt (\<lambda>x y. comparar_desempenho x y \<le> 0) xs"
  proof -
    from that have "sorted_wrt (\<lambda>x y. comparar_desempenho x y \<le> 0) (take i xs @ drop i xs)"
      by simp
    then show ?thesis
      unfolding sorted_wrt_append by (simp add: nan_eq)
  qed
  with nan_eq show ?thesis by simp
qed

text \<open>
  Claim C10 at a record with the quiet NaN \<open>0x7FC00000\<close>, placed between the scores
  9.8 and 8.5.
\<close>

theorem comparar_desempenho_nan_witness:
  "is_nan (media_final \<lparr>id_aluno = 7, media_final = 0x7FC00000\<rparr>) \<and>
   comparar_desempenho \<lparr>id_aluno = 7, media_final = 0x7FC00000\<rparr>
     \<lparr>id_aluno = 8, media_final = 0x411CCCCD\<rparr> = 0 \<and>
   comparar_desempenho \<lparr>id_aluno = 8, media_final = 0x411CCCCD\<rparr>
     \<lparr>id_aluno = 7, media_final = 0x7FC00000\<rparr> = 0 \<and>
   sorted_wrt (\<lambda>x y. comparar_desempenho x y \<le> 0)
     [\<lparr>id_aluno = 8, media_final = 0x411CCCCD\<rparr>, \<lparr>id_aluno = 9, media_final = 0x41080000\<rparr>] \<and>
   sorted_wrt (\<lambda>x y. comparar_desempenho x y \<le> 0)
     [\<lparr>id_aluno = 8, media_final = 0x411CCCCD\<rparr>, \<lparr>id_aluno = 7, media_final = 0x7FC00000\<rparr>,
      \<lparr>id_aluno = 9, media_final = 0x41080000\<rparr>]"
proof -
  have n: "is_nan (media_final \<lparr>id_aluno = 7, media_final = 0x7FC00000\<rparr>)"
    by (simp add: is_nan_def fmag_def)
  have s: "sorted_wrt (\<lambda>x y. comparar_desempenho x y \<le> 0)
     [\<lparr>id_aluno = 8, media_final = 0x411CCCCD\<rparr>, \<lparr>id_aluno = 9, media_final = 0x41080000\<rparr>]"
    by (simp add: comparar_desempenho_def flt_def fgt_def is_nan_def fmag_def fval_def fscaled_def fsign_def Let_def)
  show ?thesis
    using comparar_desempenho_nan [OF n,
        of "\<lparr>id_aluno = 8, media_final = 0x411CCCCD\<rparr>"
           "\<lparr>id_aluno = 8, media_final = 0x411CCCCD\<rparr>"
           "[\<lparr>id_aluno = 8, media_final = 0x411CCCCD\<rparr>, \<lparr>id_aluno = 9, media_final = 0x41080000\<rparr>]" 1]
      n s
    by simp
qed

section \<open>Properties of the weighted average\<close>

text \<open>
  The loop run on arrays that hold at least \<open>count\<close> elements ends without a fault, and
  its accumulators are the left-to-right folds over the indices it has yet to visit.
\<close>

lemma media_loop_sums:
  assumes "0 \<le> i" "i \<le> count'" "count' \<le> int (length ns)" "count' \<le> int (length ps)"
  shows "media_loop F (Some ns) (Some ps) count' i (sp, sw) =
     Inr (foldl (\<lambda>s j. fadd F s (fmul F (ns ! j) (ps ! j))) sp [nat i..<nat count'],
          foldl (\<lambda>s j. fadd F s (ps ! j)) sw [nat i..<nat count'])"
  using assms
proof (induction "nat (count' - i)" arbitrary: i sp sw)
  case 0
  then have "i = count'" by simp
  then show ?case by (simp add: media_loop.simps)
next
  case (Suc k)
  then have lt: "i < count'" by linarith
  have step: "[nat i..<nat count'] = nat i # [nat (i + 1)..<nat count']"
    using lt Suc.prems(1) by (simp add: upt_conv_Cons nat_add_distrib)
  have k: "k = nat (count' - (i + 1))" using Suc.hyps(2) by linarith
  have rd: "read_at (Some ns) i = Inr (ns ! nat i)" "read_at (Some ps) i = Inr (ps ! nat i)"
    using lt Suc.prems by (simp_all add: read_at_def)
  have "media_loop F (Some ns) (Some ps) count' i (sp, sw) =
      media_loop F (Some ns) (Some ps) count' (i + 1)
        (fadd F sp (fmul F (ns ! nat i) (ps ! nat i)), fadd F sw (ps ! nat i))"
    using lt by (subst media_loop.simps) (simp add: rd)
  also have "\<dots> = Inr (foldl (\<lambda>s j. fadd F s (fmul F (ns ! j) (ps ! j)))
        (fadd F sp (fmul F (ns ! nat i) (ps ! nat i))) [nat (i + 1)..<nat count'],
      foldl (\<lambda>s j. fadd F s (ps ! j)) (fadd F sw (ps ! nat i)) [nat (i + 1)..<nat count'])"
    using Suc.prems lt by (intro Suc.hyps(1) k) simp_all
  finally show ?case by (simp add: step)
qed

text \<open>
  Claim C1. For \<open>count > 0\<close>, on arrays of at least \<open>count\<close> elements whose accumulated
  weight sum does not compare equal to zero, \<open>calcular_media_ponderada\<close> returns the
  quotient of the two sums of the specification, each accumulated in single precision from
  left to right over the indices \<open>0 .. count - 1\<close>.
\<close>

theorem calcular_media_ponderada_weighted_sum:
  assumes "0 < count'" "count' \<le> int (length scores)" "count' \<le> int (length weights)"
    and "\<not> feq (soma_pesos_spec F weights (nat count')) fzero"
  shows "calcular_media_ponderada F (Some scores) (Some weights) count' =
     Inr (fdiv F (soma_produtos_spec F scores weights (nat count'))
                 (soma_pesos_spec F weights (nat count')))"
  using assms
  by (simp add: calcular_media_ponderada_def media_loop_sums soma_produtos_spec_def
      soma_pesos_spec_def)

text \<open>
  Claim C1 at the scores 7.5, 9.0, 6.0 and the weights 2.0, 3.0, 5.0 under IEEE
  arithmetic: the sums are 72.0 and 10.0, the result is the float nearest to 7.2.
\<close>

theorem calcular_media_ponderada_weighted_sum_witness:
  "(0::int) < 3 \<and> (3::int) \<le> int (length [0x40F00000, 0x41100000, 0x40C00000 :: float32]) \<and>
   (3::int) \<le> int (length [0x40000000, 0x40400000, 0x40A00000 :: float32]) \<and>
   \<not> feq (soma_pesos_spec ieee_fpu [0x40000000, 0x40400000, 0x40A00000] 3) fzero \<and>
   soma_produtos_spec ieee_fpu [0x40F00000, 0x41100000, 0x40C00000]
     [0x40000000, 0x40400000, 0x40A00000] 3 = 0x42900000 \<and>
   soma_pesos_spec ieee_fpu [0x40000000, 0x40400000, 0x40A00000] 3 = 0x41200000 \<and>
   calcular_media_ponderada ieee_fpu (Some [0x40F00000, 0x41100000, 0x40C00000])
     (Some [0x40000000, 0x40400000, 0x40A00000]) 3 = Inr 0x40E66666"
proof -
  have sw: "soma_pesos_spec ieee_fpu [0x40000000, 0x40400000, 0x40A00000] 3 = 0x41200000"
    by code_simp
  have sp: "soma_produtos_spec ieee_fpu [0x40F00000, 0x41100000, 0x40C00000]
     [0x40000000, 0x40400000, 0x40A00000] 3 = 0x42900000"
    by code_simp
  have nz: "\<not> feq (0x41200000 :: float32) fzero"
    by code_simp
  have dv: "fdiv ieee_fpu 0x42900000 0x41200000 = 0x40E66666"
    by code_simp
  show ?thesis
    using calcular_media_ponderada_weighted_sum
      [of 3 "[0x40F00000, 0x41100000, 0x40C00000]" "[0x40000000, 0x40400000, 0x40A00000]"
          ieee_fpu]
      sw sp nz dv
    by simp
qed

text \<open>
  Claim C4. For every \<open>count \<le> 0\<close> \<open>calcular_media_ponderada\<close> returns \<open>0.0\<close>, whatever
  the two pointers are: also for null pointers and empty arrays, of which any read would
  be a fault, so neither array is read.
\<close>

theorem calcular_media_ponderada_nonpositive_count:
  "count' \<le> 0 \<Longrightarrow> calcular_media_ponderada F notas pesos count' = Inr fzero"
  by (simp add: calcular_media_ponderada_def)

text \<open>
  Claim C4 at \<open>count = -3\<close>, a null pointer for the scores and an empty array of
  weights.
\<close>

theorem calcular_media_ponderada_nonpositive_count_witness:
  "(- 3 :: int) \<le> 0 \<and> calcular_media_ponderada ieee_fpu None (Some []) (- 3) = Inr 0"
  using calcular_media_ponderada_nonpositive_count [of "- 3" ieee_fpu None "Some []"]
  by (simp add: fzero_def)

text \<open>
  Claim C5. For \<open>count > 0\<close>, when the weights accumulate to a sum that compares equal to
  \<open>0.0\<close>, \<open>calcular_media_ponderada\<close> returns \<open>0.0\<close>, for every array of at least
  \<open>count\<close> scores.
\<close>

theorem calcular_media_ponderada_zero_weights:
  assumes "0 < count'" "count' \<le> int (length scores)" "count' \<le> int (length weights)"
    and "feq (soma_pesos_spec F weights (nat count')) fzero"
  shows "calcular_media_ponderada F (Some scores) (Some weights) count' = Inr fzero"
  using assms
  by (simp add: calcular_media_ponderada_def media_loop_sums soma_pesos_spec_def)

text \<open>
  Claim C5 at the weights 1.0 and -1.0 and the scores 3.0 and NaN under IEEE
  arithmetic.
\<close>

theorem calcular_media_ponderada_zero_weights_witness:
  "(0::int) < 2 \<and> (2::int) \<le> int (length [0x40400000, 0x7FC00000 :: float32]) \<and>
   (2::int) \<le> int (length [0x3F800000, 0xBF800000 :: float32]) \<and>
   feq (soma_pesos_spec ieee_fpu [0x3F800000, 0xBF800000] 2) fzero \<and>
   calcular_media_ponderada ieee_fpu (Some [0x40400000, 0x7FC00000])
     (Some [0x3F800000, 0xBF800000]) 2 = Inr 0"
proof -
  have z: "feq (soma_pesos_spec ieee_fpu [0x3F800000, 0xBF800000] 2) fzero"
    by code_simp
  show ?thesis
    using calcular_media_ponderada_zero_weights
      [of 2 "[0x40400000, 0x7FC00000]" "[0x3F800000, 0xBF800000]" ieee_fpu] z
    by (simp add: fzero_def)
qed

section \<open>The merge sort meets the contract of qsort\<close>

text \<open>
  Merging loses and adds no element. On a callback that is consistent on the array the
  merge of two sorted runs is sorted, and an element of the right run is taken before the
  left run only when nothing left in the left run compares equal to it; so the merge sort
  sorts, permutes and is stable.
\<close>

lemma merge_runs_mset: "mset (fst (merge_runs cmp xs ys)) = mset xs + mset ys"
  by (induction cmp xs ys rule: merge_runs.induct) (simp_all add: Let_def)

lemma merge_runs_set: "set (fst (merge_runs cmp xs ys)) = set xs \<union> set ys"
  using merge_runs_mset [of cmp xs ys] by (metis mset_append mset_eq_setD set_append)

lemma qsort_merge_step:
  "\<not> length b \<le> 1 \<Longrightarrow>
   fst (qsort_merge cmp b) =
     fst (merge_runs cmp (fst (qsort_merge cmp (take (length b div 2) b)))
       (fst (qsort_merge cmp (drop (length b div 2) b))))"
  by (subst qsort_merge.simps) (simp add: Let_def)

lemma qsort_merge_mset: "mset (fst (qsort_merge cmp xs)) = mset xs"
proof (induction cmp xs rule: qsort_merge.induct)
  case (1 cmp b)
  show ?case
  proof (cases "length b \<le> 1")
    case True
    then show ?thesis by (simp add: qsort_merge.simps)
  next
    case False
    have "mset (fst (qsort_merge cmp b)) =
        mset (take (length b div 2) b) + mset (drop (length b div 2) b)"
      unfolding qsort_merge_step [OF False] merge_runs_mset
      using "1.IH"(1) [OF False refl] "1.IH"(2) [OF False refl refl] by simp
    also have "\<dots> = mset b"
      by (simp only: mset_append [symmetric] append_take_drop_id)
    finally show ?thesis .
  qed
qed

lemma qsort_merge_set: "set (fst (qsort_merge cmp xs)) = set xs"
  by (rule mset_eq_setD [OF qsort_merge_mset])

lemma compar_consistent_subset:
  "compar_consistent cmp A \<Longrightarrow> B \<subseteq> A \<Longrightarrow> compar_consistent cmp B"
  unfolding compar_consistent_def by blast

lemma compar_consistent_flip:
  "compar_consistent cmp A \<Longrightarrow> a \<in> A \<Longrightarrow> b \<in> A \<Longrightarrow> \<not> cmp a b \<le> 0 \<Longrightarrow> cmp b a \<le> 0"
proof -
  assume c: "compar_consistent cmp A" and a: "a \<in> A" and b: "b \<in> A" and n: "\<not> cmp a b \<le> 0"
  have "(cmp b a < 0) = (0 < cmp a b)"
    using c a b unfolding compar_consistent_def by blast
  with n show "cmp b a \<le> 0" by linarith
qed

lemma compar_consistent_trans:
  "compar_consistent cmp A \<Longrightarrow> a \<in> A \<Longrightarrow> b \<in> A \<Longrightarrow> c \<in> A \<Longrightarrow>
   cmp a b \<le> 0 \<Longrightarrow> cmp b c \<le> 0 \<Longrightarrow> cmp a c \<le> 0"
  unfolding compar_consistent_def by blast

lemma compar_consistent_sym0:
  "compar_consistent cmp A \<Longrightarrow> a \<in> A \<Longrightarrow> b \<in> A \<Longrightarrow> cmp a b = 0 \<Longrightarrow> cmp b a = 0"
proof -
  assume c: "compar_consistent cmp A" and a: "a \<in> A" and b: "b \<in> A" and e: "cmp a b = 0"
  have "(cmp a b < 0) = (0 < cmp b a)" "(cmp b a < 0) = (0 < cmp a b)"
    using c a b unfolding compar_consistent_def by blast+
  with e show "cmp b a = 0" by linarith
qed

lemma merge_runs_sorted:
  assumes "compar_consistent cmp A" "set xs \<subseteq> A" "set ys \<subseteq> A"
    and "sorted_wrt (\<lambda>a b. cmp a b \<le> 0) xs" "sorted_wrt (\<lambda>a b. cmp a b \<le> 0) ys"
  shows "sorted_wrt (\<lambda>a b. cmp a b \<le> 0) (fst (merge_runs cmp xs ys))"
  using assms
proof (induction cmp xs ys rule: merge_runs.induct)
  case (3 cmp x b1 y b2)
  show ?case
  proof (cases "cmp x y \<le> 0")
    case True
    have "cmp x z \<le> 0" if "z \<in> set b2" for z
      using compar_consistent_trans [OF "3.prems"(1) _ _ _ True, of z] that "3.prems" by auto
    with True "3.IH"(1) [OF True] "3.prems" show ?thesis
      by (auto simp: Let_def merge_runs_set)
  next
    case False
    then have yx: "cmp y x \<le> 0"
      using compar_consistent_flip [OF "3.prems"(1), of x y] "3.prems" by auto
    have "cmp y z \<le> 0" if "z \<in> set b1" for z
      using compar_consistent_trans [OF "3.prems"(1) _ _ _ yx, of z] that "3.prems" by auto
    with False yx "3.IH"(2) [OF False] "3.prems" show ?thesis
      by (auto simp: Let_def merge_runs_set)
  qed
qed simp_all

lemma qsort_merge_sorted:
  "compar_consistent cmp (set xs) \<Longrightarrow> sorted_wrt (\<lambda>a b. cmp a b \<le> 0) (fst (qsort_merge cmp xs))"
proof (induction cmp xs rule: qsort_merge.induct)
  case (1 cmp b)
  show ?case
  proof (cases "length b \<le> 1")
    case True
    then have "b = [] \<or> (\<exists>x. b = [x])" by (cases b) auto
    then show ?thesis by (auto simp: qsort_merge.simps)
  next
    case False
    have l: "set (take (length b div 2) b) \<subseteq> set b" by (rule set_take_subset)
    have r: "set (drop (length b div 2) b) \<subseteq> set b" by (rule set_drop_subset)
    show ?thesis
      unfolding qsort_merge_step [OF False]
      using "1.prems" l r
      by (intro merge_runs_sorted [of cmp "set b"] "1.IH"(1) [OF False refl]
          "1.IH"(2) [OF False refl refl] compar_consistent_subset [OF "1.prems"])
        (simp_all add: qsort_merge_set)
  qed
qed


lemma compar_consistent_refl:
  assumes "compar_consistent cmp A" "x \<in> A"
  shows "cmp x x = 0"
proof -
  have "(cmp x x < 0) = (0 < cmp x x)"
    using assms unfolding compar_consistent_def by blast
  then show ?thesis by linarith
qed

lemma merge_runs_skip:
  assumes cons: "compar_consistent cmp A"
    and A: "x \<in> A" "y \<in> A" "a \<in> A" "set b1 \<subseteq> A"
    and srt: "sorted_wrt (\<lambda>a b. cmp a b \<le> 0) (x # b1)"
    and xy: "\<not> cmp x y \<le> 0" and ay: "cmp a y = 0"
  shows "filter (\<lambda>z. cmp a z = 0) (x # b1) = []"
proof -
  have "cmp a z \<noteq> 0" if z: "z \<in> set (x # b1)" for z
  proof
    assume az: "cmp a z = 0"
    have zA: "z \<in> A" using z A by auto
    have xz: "cmp x z \<le> 0"
    proof (cases "z = x")
      case True
      then show ?thesis using compar_consistent_refl [OF cons A(1)] by simp
    next
      case False
      with z srt show ?thesis by simp
    qed
    have "cmp z a = 0"
      by (rule compar_consistent_sym0 [OF cons A(3) zA az])
    then have za: "cmp z a \<le> 0" by simp
    have xa: "cmp x a \<le> 0"
      by (rule compar_consistent_trans [OF cons A(1) zA A(3) xz za])
    have "cmp a y \<le> 0" using ay by simp
    then have "cmp x y \<le> 0"
      by (rule compar_consistent_trans [OF cons A(1) A(3) A(2) xa])
    with xy show False by simp
  qed
  then show ?thesis
    unfolding filter_empty_conv by blast
qed

lemma merge_runs_stable:
  assumes "compar_consistent cmp A" "set xs \<subseteq> A" "set ys \<subseteq> A" "a \<in> A"
    and "sorted_wrt (\<lambda>a b. cmp a b \<le> 0) xs"
  shows "filter (\<lambda>z. cmp a z = 0) (fst (merge_runs cmp xs ys)) =
    filter (\<lambda>z. cmp a z = 0) xs @ filter (\<lambda>z. cmp a z = 0) ys"
  using assms
proof (induction cmp xs ys rule: merge_runs.induct)
  case (1 cmp b2)
  show ?case by simp
next
  case (2 cmp x b1)
  show ?case by simp
next
  case (3 cmp x b1 y b2)
  have A: "x \<in> A" "y \<in> A" "set b1 \<subseteq> A" "set b2 \<subseteq> A"
    using "3.prems"(2,3) by simp_all
  have srt1: "sorted_wrt (\<lambda>a b. cmp a b \<le> 0) b1"
    using "3.prems"(5) by simp
  show ?case
  proof (cases "cmp x y \<le> 0")
    case True
    have "filter (\<lambda>z. cmp a z = 0) (fst (merge_runs cmp b1 (y # b2))) =
        filter (\<lambda>z. cmp a z = 0) b1 @ filter (\<lambda>z. cmp a z = 0) (y # b2)"
      using "3.prems"(3) by (intro "3.IH"(1) [OF True "3.prems"(1) A(3) _ "3.prems"(4) srt1])
    with True show ?thesis by (simp add: Let_def)
  next
    case False
    have ih: "filter (\<lambda>z. cmp a z = 0) (fst (merge_runs cmp (x # b1) b2)) =
        filter (\<lambda>z. cmp a z = 0) (x # b1) @ filter (\<lambda>z. cmp a z = 0) b2"
      by (rule "3.IH"(2) [OF False "3.prems"(1,2) A(4) "3.prems"(4,5)])
    show ?thesis
    proof (cases "cmp a y = 0")
      case ay: True
      have skip: "filter (\<lambda>z. cmp a z = 0) (x # b1) = []"
        by (rule merge_runs_skip [OF "3.prems"(1) A(1,2) "3.prems"(4) A(3) "3.prems"(5) False ay])
      have "filter (\<lambda>z. cmp a z = 0) (fst (merge_runs cmp (x # b1) (y # b2))) =
          y # filter (\<lambda>z. cmp a z = 0) (fst (merge_runs cmp (x # b1) b2))"
        using False ay by (simp add: Let_def)
      also have "\<dots> = y # filter (\<lambda>z. cmp a z = 0) b2"
        unfolding ih skip by simp
      also have "\<dots> = filter (\<lambda>z. cmp a z = 0) (x # b1) @ filter (\<lambda>z. cmp a z = 0) (y # b2)"
        unfolding skip using ay by simp
      finally show ?thesis .
    next
      case nay: False
      have "filter (\<lambda>z. cmp a z = 0) (fst (merge_runs cmp (x # b1) (y # b2))) =
          filter (\<lambda>z. cmp a z = 0) (fst (merge_runs cmp (x # b1) b2))"
        using False nay by (simp add: Let_def)
      also have "\<dots> = filter (\<lambda>z. cmp a z = 0) (x # b1) @ filter (\<lambda>z. cmp a z = 0) (y # b2)"
        unfolding ih using nay by simp
      finally show ?thesis .
    qed
  qed
qed

lemma qsort_merge_stable_on:
  "compar_consistent cmp A \<Longrightarrow> set xs \<subseteq> A \<Longrightarrow> a \<in> A \<Longrightarrow>
   filter (\<lambda>z. cmp a z = 0) (fst (qsort_merge cmp xs)) = filter (\<lambda>z. cmp a z = 0) xs"
proof (induction cmp xs rule: qsort_merge.induct)
  case (1 cmp b)
  show ?case
  proof (cases "length b \<le> 1")
    case True
    then show ?thesis by (simp add: qsort_merge.simps)
  next
    case False
    let ?l = "take (length b div 2) b" and ?r = "drop (length b div 2) b"
    have l: "set ?l \<subseteq> A" using set_take_subset [of "length b div 2" b] "1.prems"(2) by blast
    have r: "set ?r \<subseteq> A" using set_drop_subset [of "length b div 2" b] "1.prems"(2) by blast
    have sl: "set (fst (qsort_merge cmp ?l)) \<subseteq> A" using l by (simp only: qsort_merge_set)
    have sr: "set (fst (qsort_merge cmp ?r)) \<subseteq> A" using r by (simp only: qsort_merge_set)
    have srt: "sorted_wrt (\<lambda>a b. cmp a b \<le> 0) (fst (qsort_merge cmp ?l))"
      by (rule qsort_merge_sorted [OF compar_consistent_subset [OF "1.prems"(1) l]])
    have "filter (\<lambda>z. cmp a z = 0) (fst (qsort_merge cmp b)) =
        filter (\<lambda>z. cmp a z = 0) (fst (qsort_merge cmp ?l)) @
        filter (\<lambda>z. cmp a z = 0) (fst (qsort_merge cmp ?r))"
      unfolding qsort_merge_step [OF False]
      by (rule merge_runs_stable [OF "1.prems"(1) sl sr "1.prems"(3) srt])
    also have "\<dots> = filter (\<lambda>z. cmp a z = 0) ?l @ filter (\<lambda>z. cmp a z = 0) ?r"
      unfolding "1.IH"(1) [OF False refl "1.prems"(1) l "1.prems"(3)]
        "1.IH"(2) [OF False refl refl "1.prems"(1) r "1.prems"(3)] by (rule refl)
    also have "\<dots> = filter (\<lambda>z. cmp a z = 0) b"
      by (simp only: filter_append [symmetric] append_take_drop_id)
    finally show ?thesis .
  qed
qed

lemma qsort_merge_permutes: "qsort_permutes qsort_merge"
  by (simp add: qsort_permutes_def qsort_merge_mset)

lemma qsort_merge_sorts: "qsort_sorts qsort_merge"
  by (simp add: qsort_sorts_def qsort_merge_sorted)

lemma qsort_merge_stable: "qsort_stable qsort_merge"
  unfolding qsort_stable_def
proof (intro allI impI ballI)
  fix cmp :: "'a \<Rightarrow> 'a \<Rightarrow> int" and xs a
  assume "compar_consistent cmp (set xs)" "a \<in> set xs"
  then show "filter (\<lambda>x. cmp a x = 0) (fst (qsort_merge cmp xs)) = filter (\<lambda>x. cmp a x = 0) xs"
    by (intro qsort_merge_stable_on [of cmp "set xs"]) simp_all
qed

section \<open>The comparator on scores that are not NaN\<close>

text \<open>
  Without NaN the answers of \<open>comparar_desempenho\<close> define a total ordering, and it
  puts \<open>a\<close> before or level with \<open>b\<close> exactly when the score of \<open>a\<close> is \<open>>=\<close> that of
  \<open>b\<close>.
\<close>

lemma comparar_desempenho_consistent:
  "\<forall>r\<in>A. \<not> is_nan (media_final r) \<Longrightarrow> compar_consistent comparar_desempenho A"
  by (auto simp: compar_consistent_def comparar_desempenho_def flt_def fgt_def split: if_splits)

lemma comparar_desempenho_le_fge:
  "\<not> is_nan (media_final a) \<Longrightarrow> \<not> is_nan (media_final b) \<Longrightarrow>
   (comparar_desempenho a b \<le> 0) = fge (media_final a) (media_final b)"
  by (auto simp: comparar_desempenho_def flt_def fgt_def fge_def)

text \<open>
  A sequence in the comparator's order has its score values in descending order.
\<close>

lemma sorted_by_key:
  assumes "sorted_wrt (\<lambda>a b. comparar_desempenho a b \<le> 0) ys"
    and "\<forall>r\<in>set ys. \<not> is_nan (media_final r)"
  shows "sorted (map (\<lambda>r. - fval (media_final r)) ys)"
proof -
  have "sorted_wrt (\<lambda>a b. - fval (media_final a) \<le> - fval (media_final b)) ys"
    using assms(1)
  proof (rule sorted_wrt_mono_rel [rotated])
    fix a b assume "a \<in> set ys" "b \<in> set ys" "comparar_desempenho a b \<le> 0"
    then show "- fval (media_final a) \<le> - fval (media_final b)"
      using assms(2) by (simp add: comparar_desempenho_le_fge fge_def)
  qed
  then show ?thesis by (simp add: sorted_map)
qed

section \<open>Properties of the sorting routine\<close>

text \<open>
  A call on the whole array, spelled out; and what the two promises of \<open>qsort\<close> give
  for the callback \<open>comparar_desempenho\<close>.
\<close>

lemma ordenar_por_desempenho_whole:
  "ordenar_por_desempenho qs (Some xs) (int (length xs)) =
     (if length xs \<le> 1 then Inr (Some xs, 0)
      else Inr (Some (fst (qs comparar_desempenho xs)), snd (qs comparar_desempenho xs)))"
  by (simp add: ordenar_por_desempenho_def Let_def)

lemma qsort_result_sorted:
  assumes "qsort_sorts qs" "\<forall>r\<in>set xs. \<not> is_nan (media_final r)"
  shows "sorted_wrt (\<lambda>a b. comparar_desempenho a b \<le> 0) (fst (qs comparar_desempenho xs))"
  using assms comparar_desempenho_consistent [of "set xs"]
  unfolding qsort_sorts_def by blast

lemma qsort_result_mset:
  "qsort_permutes qs \<Longrightarrow> mset (fst (qs cmp xs)) = mset xs"
  unfolding qsort_permutes_def by blast

text \<open>
  Claim C7. On a sequence of length zero or one \<open>ordenar_por_desempenho\<close> leaves the
  sequence as it is and calls the comparison function zero times, whatever \<open>qsort\<close> is.
\<close>

theorem ordenar_por_desempenho_trivial:
  "length xs \<le> 1 \<Longrightarrow>
   ordenar_por_desempenho qs (Some xs) (int (length xs)) = Inr (Some xs, 0)"
  by (simp add: ordenar_por_desempenho_def)

text \<open>
  Claim C7 at the one-record sequence (101, 8.5).
\<close>

theorem ordenar_por_desempenho_trivial_witness:
  "length [\<lparr>id_aluno = 101, media_final = 0x41080000\<rparr>] \<le> 1 \<and>
   ordenar_por_desempenho qsort_merge (Some [\<lparr>id_aluno = 101, media_final = 0x41080000\<rparr>])
     (int (length [\<lparr>id_aluno = 101, media_final = 0x41080000\<rparr>])) =
   Inr (Some [\<lparr>id_aluno = 101, media_final = 0x41080000\<rparr>], 0)"
  using ordenar_por_desempenho_trivial
    [of "[\<lparr>id_aluno = 101, media_final = 0x41080000\<rparr>]" qsort_merge]
  by simp

text \<open>
  Claim C8 says that a null pointer and a negative length are undefined behaviour and
  that the length check is the only guard. The routine does guard the pointer: a call with
  a null pointer and \<open>num_alunos = 4\<close>, which the length check lets through, returns
  normally having done nothing, and so does a call with \<open>num_alunos = -1\<close>.
\<close>

theorem ordenar_por_desempenho_null_guard:
  "ordenar_por_desempenho qsort_merge None 4 = Inr (None, 0) \<and>
   ordenar_por_desempenho qsort_merge
     (Some [\<lparr>id_aluno = 101, media_final = 0x41080000\<rparr>,
            \<lparr>id_aluno = 102, media_final = 0x411CCCCD\<rparr>]) (- 1) =
   Inr (Some [\<lparr>id_aluno = 101, media_final = 0x41080000\<rparr>,
              \<lparr>id_aluno = 102, media_final = 0x411CCCCD\<rparr>], 0)"
  by (simp add: ordenar_por_desempenho_def)

text \<open>
  Claim C8, amended. The routine has two guards, a null pointer and a length of at most
  1 (negative lengths included); either makes the call a no-op without a comparison. The
  only call that leaves defined behaviour is one with a non-null pointer and a length
  greater than 1 and greater than the array; every other call hands the first
  \<open>num_alunos\<close> records to \<open>qsort\<close> and leaves the rest in place.
\<close>

theorem ordenar_por_desempenho_guards:
  "(desempenhos = None \<longrightarrow> ordenar_por_desempenho qs desempenhos n = Inr (None, 0)) \<and>
   (n \<le> 1 \<longrightarrow> ordenar_por_desempenho qs desempenhos n = Inr (desempenhos, 0)) \<and>
   ((\<exists>e. ordenar_por_desempenho qs desempenhos n = Inl e) \<longleftrightarrow>
      (\<exists>xs. desempenhos = Some xs \<and> 1 < n \<and> int (length xs) < n)) \<and>
   (\<forall>xs. desempenhos = Some xs \<and> 1 < n \<and> n \<le> int (length xs) \<longrightarrow>
      ordenar_por_desempenho qs desempenhos n =
        Inr (Some (fst (qs comparar_desempenho (take (nat n) xs)) @ drop (nat n) xs),
             snd (qs comparar_desempenho (take (nat n) xs))))"
  by (cases desempenhos) (auto simp: ordenar_por_desempenho_def Let_def)

text \<open>
  Claim C8, amended, at a null pointer, a negative length, an array shorter than the
  length and a two-record array that is sorted.
\<close>

theorem ordenar_por_desempenho_guards_witness:
  "ordenar_por_desempenho qsort_merge None 2 = Inr (None, 0) \<and>
   ordenar_por_desempenho qsort_merge (Some []) (- 5) = Inr (Some [], 0) \<and>
   ordenar_por_desempenho qsort_merge
     (Some [\<lparr>id_aluno = 101, media_final = 0x41080000\<rparr>]) 2 = Inl OutOfBounds \<and>
   ordenar_por_desempenho qsort_merge
     (Some [\<lparr>id_aluno = 101, media_final = 0x41080000\<rparr>,
            \<lparr>id_aluno = 102, media_final = 0x411CCCCD\<rparr>]) 2 =
   Inr (Some [\<lparr>id_aluno = 102, media_final = 0x411CCCCD\<rparr>,
              \<lparr>id_aluno = 101, media_final = 0x41080000\<rparr>], 1)"
proof -
  have q: "qsort_merge comparar_desempenho
      [\<lparr>id_aluno = 101, media_final = 0x41080000\<rparr>,
       \<lparr>id_aluno = 102, media_final = 0x411CCCCD\<rparr>] =
     ([\<lparr>id_aluno = 102, media_final = 0x411CCCCD\<rparr>,
       \<lparr>id_aluno = 101, media_final = 0x41080000\<rparr>], 1)"
    by code_simp
  have e: "\<exists>e. ordenar_por_desempenho qsort_merge
     (Some [\<lparr>id_aluno = 101, media_final = 0x41080000\<rparr>]) 2 = Inl e"
    using ordenar_por_desempenho_guards
      [of "Some [\<lparr>id_aluno = 101, media_final = 0x41080000\<rparr>]" qsort_merge 2]
    by simp
  then have "ordenar_por_desempenho qsort_merge
     (Some [\<lparr>id_aluno = 101, media_final = 0x41080000\<rparr>]) 2 = Inl OutOfBounds"
    by (simp add: ordenar_por_desempenho_def)
  then show ?thesis
    using ordenar_por_desempenho_guards [of None qsort_merge 2]
      ordenar_por_desempenho_guards [of "Some []" qsort_merge "- 5"]
      ordenar_por_desempenho_guards
      [of "Some [\<lparr>id_aluno = 101, media_final = 0x41080000\<rparr>,
                 \<lparr>id_aluno = 102, media_final = 0x411CCCCD\<rparr>]" qsort_merge 2]
    by (simp add: q)
qed

text \<open>
  Claim C2 says that after the sort every adjacent pair of records satisfies
  \<open>record[i].media_final >= record[i+1].media_final\<close>, for every non-empty sequence. On
  the records (1, NaN), (2, 1.0) it does not: whichever way round the two records end up,
  \<open>>=\<close> is false between a NaN and any score. (The merge sort leaves them as they are.)
\<close>

theorem ordenar_por_desempenho_nan_unsorted:
  "ordenar_por_desempenho qsort_merge
     (Some [\<lparr>id_aluno = 1, media_final = 0x7FC00000\<rparr>,
            \<lparr>id_aluno = 2, media_final = 0x3F800000\<rparr>]) 2 =
   Inr (Some [\<lparr>id_aluno = 1, media_final = 0x7FC00000\<rparr>,
              \<lparr>id_aluno = 2, media_final = 0x3F800000\<rparr>], 1) \<and>
   \<not> fge (media_final \<lparr>id_aluno = 1, media_final = 0x7FC00000\<rparr>)
          (media_final \<lparr>id_aluno = 2, media_final = 0x3F800000\<rparr>)"
  by code_simp

text \<open>
  Claim C2, amended. For every sequence in which no score is NaN, and every \<open>qsort\<close>
  that keeps its two promises, \<open>ordenar_por_desempenho\<close> called on the whole sequence
  returns, and in the sequence it leaves every adjacent pair satisfies
  \<open>record[i].media_final >= record[i+1].media_final\<close>.
\<close>

theorem ordenar_por_desempenho_descending:
  assumes sorts: "qsort_sorts qs" and perm: "qsort_permutes qs"
    and nonan: "\<forall>r\<in>set xs. \<not> is_nan (media_final r)"
  shows "\<exists>ys k. ordenar_por_desempenho qs (Some xs) (int (length xs)) = Inr (Some ys, k) \<and>
    length ys = length xs \<and>
    (\<forall>i. i + 1 < length ys \<longrightarrow> fge (media_final (ys ! i)) (media_final (ys ! (i + 1))))"
proof (cases "length xs \<le> 1")
  case True
  then show ?thesis by (simp add: ordenar_por_desempenho_whole)
next
  case False
  let ?ys = "fst (qs comparar_desempenho xs)"
  have ms: "mset ?ys = mset xs" by (rule qsort_result_mset [OF perm])
  then have len: "length ?ys = length xs" by (rule mset_eq_length)
  have set: "set ?ys = set xs" by (rule mset_eq_setD [OF ms])
  have srt: "sorted_wrt (\<lambda>a b. comparar_desempenho a b \<le> 0) ?ys"
    by (rule qsort_result_sorted [OF sorts nonan])
  have "fge (media_final (?ys ! i)) (media_final (?ys ! (i + 1)))" if "i + 1 < length ?ys" for i
  proof -
    have "comparar_desempenho (?ys ! i) (?ys ! (i + 1)) \<le> 0"
      using sorted_wrt_nth_less [OF srt, of i "i + 1"] that by simp
    moreover have "?ys ! i \<in> set xs" "?ys ! (i + 1) \<in> set xs"
      using that set nth_mem [of i ?ys] nth_mem [of "i + 1" ?ys] by auto
    ultimately show ?thesis
      using nonan by (simp add: comparar_desempenho_le_fge)
  qed
  with len False show ?thesis by (simp add: ordenar_por_desempenho_whole)
qed

text \<open>
  Claim C2, amended, at the class of the source's own test: (101, 8.5), (102, 6.2),
  (103, 9.8), (104, 7.5) come out as 103, 101, 104, 102.
\<close>

theorem ordenar_por_desempenho_descending_witness:
  "\<not> is_nan 0x41080000 \<and> \<not> is_nan 0x40C66666 \<and> \<not> is_nan 0x411CCCCD \<and> \<not> is_nan 0x40F00000 \<and>
   ordenar_por_desempenho qsort_merge
     (Some [\<lparr>id_aluno = 101, media_final = 0x41080000\<rparr>,
            \<lparr>id_aluno = 102, media_final = 0x40C66666\<rparr>,
            \<lparr>id_aluno = 103, media_final = 0x411CCCCD\<rparr>,
            \<lparr>id_aluno = 104, media_final = 0x40F00000\<rparr>]) 4 =
   Inr (Some [\<lparr>id_aluno = 103, media_final = 0x411CCCCD\<rparr>,
              \<lparr>id_aluno = 101, media_final = 0x41080000\<rparr>,
              \<lparr>id_aluno = 104, media_final = 0x40F00000\<rparr>,
              \<lparr>id_aluno = 102, media_final = 0x40C66666\<rparr>], 5) \<and>
   fge 0x411CCCCD 0x41080000 \<and> fge 0x41080000 0x40F00000 \<and> fge 0x40F00000 0x40C66666"
proof -
  let ?xs = "[\<lparr>id_aluno = 101, media_final = 0x41080000\<rparr>,
            \<lparr>id_aluno = 102, media_final = 0x40C66666\<rparr>,
            \<lparr>id_aluno = 103, media_final = 0x411CCCCD\<rparr>,
            \<lparr>id_aluno = 104, media_final = 0x40F00000\<rparr>]"
  have nn: "\<not> is_nan 0x41080000" "\<not> is_nan 0x40C66666" "\<not> is_nan 0x411CCCCD" "\<not> is_nan 0x40F00000"
    by (simp_all add: is_nan_def fmag_def)
  then have nonan: "\<forall>r\<in>set ?xs. \<not> is_nan (media_final r)" by simp
  have run: "ordenar_por_desempenho qsort_merge (Some ?xs) (int (length ?xs)) =
     Inr (Some [\<lparr>id_aluno = 103, media_final = 0x411CCCCD\<rparr>,
              \<lparr>id_aluno = 101, media_final = 0x41080000\<rparr>,
              \<lparr>id_aluno = 104, media_final = 0x40F00000\<rparr>,
              \<lparr>id_aluno = 102, media_final = 0x40C66666\<rparr>], 5)"
    by code_simp
  from ordenar_por_desempenho_descending [OF qsort_merge_sorts qsort_merge_permutes nonan]
  obtain ys k where
    res: "ordenar_por_desempenho qsort_merge (Some ?xs) (int (length ?xs)) = Inr (Some ys, k)"
    and adj: "\<forall>i. i + 1 < length ys \<longrightarrow> fge (media_final (ys ! i)) (media_final (ys ! (i + 1)))"
    by blast
  from res run have ys: "ys = [\<lparr>id_aluno = 103, media_final = 0x411CCCCD\<rparr>,
              \<lparr>id_aluno = 101, media_final = 0x41080000\<rparr>,
              \<lparr>id_aluno = 104, media_final = 0x40F00000\<rparr>,
              \<lparr>id_aluno = 102, media_final = 0x40C66666\<rparr>]"
    by simp
  from adj [rule_format, of 0] adj [rule_format, of 1] adj [rule_format, of 2]
  have "fge 0x411CCCCD 0x41080000" "fge 0x41080000 0x40F00000" "fge 0x40F00000 0x40C66666"
    unfolding ys by simp_all
  with nn run show ?thesis by simp
qed

text \<open>
  Claim C3. For every record sequence, with or without NaN scores, and every
  \<open>num_alunos\<close> up to its length, \<open>ordenar_por_desempenho\<close> returns and leaves a
  sequence with the same multiset of (\<open>id_aluno\<close>, \<open>media_final\<close>) records: a permutation
  of the input. This rests on \<open>qsort\<close> only moving elements.
\<close>

theorem ordenar_por_desempenho_permutation:
  assumes "qsort_permutes qs" "num_alunos \<le> int (length xs)"
  shows "\<exists>ys k. ordenar_por_desempenho qs (Some xs) num_alunos = Inr (Some ys, k) \<and>
    mset ys = mset xs"
proof (cases "num_alunos \<le> 1")
  case True
  then show ?thesis by (simp add: ordenar_por_desempenho_def)
next
  case False
  have "mset (fst (qs comparar_desempenho (take (nat num_alunos) xs)) @ drop (nat num_alunos) xs) =
      mset (take (nat num_alunos) xs) + mset (drop (nat num_alunos) xs)"
    by (simp add: qsort_result_mset [OF assms(1)])
  also have "\<dots> = mset xs"
    by (simp only: mset_append [symmetric] append_take_drop_id)
  finally show ?thesis
    using False assms(2) by (simp add: ordenar_por_desempenho_def Let_def)
qed

text \<open>
  Claim C3 at four records of which the first three are sorted, one of them with a NaN
  score.
\<close>

theorem ordenar_por_desempenho_permutation_witness:
  "(3::int) \<le> int (length [\<lparr>id_aluno = 1, media_final = 0x3F800000\<rparr>,
        \<lparr>id_aluno = 2, media_final = 0x40A00000\<rparr>,
        \<lparr>id_aluno = 3, media_final = 0x7FC00000\<rparr>,
        \<lparr>id_aluno = 4, media_final = 0x411CCCCD\<rparr>]) \<and>
   ordenar_por_desempenho qsort_merge
     (Some [\<lparr>id_aluno = 1, media_final = 0x3F800000\<rparr>,
           \<lparr>id_aluno = 2, media_final = 0x40A00000\<rparr>,
           \<lparr>id_aluno = 3, media_final = 0x7FC00000\<rparr>,
           \<lparr>id_aluno = 4, media_final = 0x411CCCCD\<rparr>]) 3 =
   Inr (Some [\<lparr>id_aluno = 2, media_final = 0x40A00000\<rparr>,
              \<lparr>id_aluno = 1, media_final = 0x3F800000\<rparr>,
              \<lparr>id_aluno = 3, media_final = 0x7FC00000\<rparr>,
              \<lparr>id_aluno = 4, media_final = 0x411CCCCD\<rparr>], 3) \<and>
   mset [\<lparr>id_aluno = 2, media_final = 0x40A00000\<rparr>,
        \<lparr>id_aluno = 1, media_final = 0x3F800000\<rparr>,
        \<lparr>id_aluno = 3, media_final = 0x7FC00000\<rparr>,
        \<lparr>id_aluno = 4, media_final = 0x411CCCCD\<rparr>] =
   mset [\<lparr>id_aluno = 1, media_final = 0x3F800000\<rparr>,
        \<lparr>id_aluno = 2, media_final = 0x40A00000\<rparr>,
        \<lparr>id_aluno = 3, media_final = 0x7FC00000\<rparr>,
        \<lparr>id_aluno = 4, media_final = 0x411CCCCD\<rparr>]"
proof -
  let ?xs = "[\<lparr>id_aluno = 1, media_final = 0x3F800000\<rparr>,
            \<lparr>id_aluno = 2, media_final = 0x40A00000\<rparr>,
            \<lparr>id_aluno = 3, media_final = 0x7FC00000\<rparr>,
            \<lparr>id_aluno = 4, media_final = 0x411CCCCD\<rparr>]"
  have n: "(3::int) \<le> int (length ?xs)" by simp
  have run: "ordenar_por_desempenho qsort_merge (Some ?xs) 3 =
     Inr (Some [\<lparr>id_aluno = 2, media_final = 0x40A00000\<rparr>,
               \<lparr>id_aluno = 1, media_final = 0x3F800000\<rparr>,
               \<lparr>id_aluno = 3, media_final = 0x7FC00000\<rparr>,
               \<lparr>id_aluno = 4, media_final = 0x411CCCCD\<rparr>], 3)"
    by code_simp
  from ordenar_por_desempenho_permutation [OF qsort_merge_permutes n]
  obtain ys k where "ordenar_por_desempenho qsort_merge (Some ?xs) 3 = Inr (Some ys, k)"
    and "mset ys = mset ?xs"
    by blast
  with run n show ?thesis by simp
qed

text \<open>
  Claim C9 says that a second application leaves the sequence produced by the first
  unchanged. With a NaN score it need not: under the merge sort the scores 3.0, NaN, 4.0,
  5.0, 2.0, 1.0 of the records 1 to 6 come out in the order 4, 1, 2, 3, 5, 6, and a second
  application moves record 3 forward, to 4, 3, 1, 2, 5, 6.
\<close>

theorem ordenar_por_desempenho_nan_not_idempotent:
  "ordenar_por_desempenho qsort_merge
     (Some [\<lparr>id_aluno = 1, media_final = 0x40400000\<rparr>,
           \<lparr>id_aluno = 2, media_final = 0x7FC00000\<rparr>,
           \<lparr>id_aluno = 3, media_final = 0x40800000\<rparr>,
           \<lparr>id_aluno = 4, media_final = 0x40A00000\<rparr>,
           \<lparr>id_aluno = 5, media_final = 0x40000000\<rparr>,
           \<lparr>id_aluno = 6, media_final = 0x3F800000\<rparr>]) 6 =
   Inr (Some [\<lparr>id_aluno = 4, media_final = 0x40A00000\<rparr>,
              \<lparr>id_aluno = 1, media_final = 0x40400000\<rparr>,
              \<lparr>id_aluno = 2, media_final = 0x7FC00000\<rparr>,
              \<lparr>id_aluno = 3, media_final = 0x40800000\<rparr>,
              \<lparr>id_aluno = 5, media_final = 0x40000000\<rparr>,
              \<lparr>id_aluno = 6, media_final = 0x3F800000\<rparr>], 8) \<and>
   ordenar_por_desempenho qsort_merge
     (Some [\<lparr>id_aluno = 4, media_final = 0x40A00000\<rparr>,
           \<lparr>id_aluno = 1, media_final = 0x40400000\<rparr>,
           \<lparr>id_aluno = 2, media_final = 0x7FC00000\<rparr>,
           \<lparr>id_aluno = 3, media_final = 0x40800000\<rparr>,
           \<lparr>id_aluno = 5, media_final = 0x40000000\<rparr>,
           \<lparr>id_aluno = 6, media_final = 0x3F800000\<rparr>]) 6 =
   Inr (Some [\<lparr>id_aluno = 4, media_final = 0x40A00000\<rparr>,
              \<lparr>id_aluno = 3, media_final = 0x40800000\<rparr>,
              \<lparr>id_aluno = 1, media_final = 0x40400000\<rparr>,
              \<lparr>id_aluno = 2, media_final = 0x7FC00000\<rparr>,
              \<lparr>id_aluno = 5, media_final = 0x40000000\<rparr>,
              \<lparr>id_aluno = 6, media_final = 0x3F800000\<rparr>], 8)"
  by code_simp

text \<open>
  Claim C9, amended. On a sequence without NaN scores, and for every \<open>qsort\<close> that sorts,
  permutes and is stable, a second application of \<open>ordenar_por_desempenho\<close> to the
  sequence the first one produced returns and leaves that sequence exactly as it is,
  records with equal scores included.
\<close>

theorem ordenar_por_desempenho_idempotent:
  assumes sorts: "qsort_sorts qs" and perm: "qsort_permutes qs" and stable: "qsort_stable qs"
    and nonan: "\<forall>r\<in>set xs. \<not> is_nan (media_final r)"
    and first: "ordenar_por_desempenho qs (Some xs) (int (length xs)) = Inr (Some ys, k)"
  shows "\<exists>k'. ordenar_por_desempenho qs (Some ys) (int (length ys)) = Inr (Some ys, k')"
proof (cases "length xs \<le> 1")
  case True
  with first have "ys = xs" by (simp add: ordenar_por_desempenho_whole)
  with True show ?thesis by (simp add: ordenar_por_desempenho_whole)
next
  case False
  let ?zs = "fst (qs comparar_desempenho ys)"
  let ?key = "\<lambda>r. - fval (media_final r)"
  from first False have ys: "ys = fst (qs comparar_desempenho xs)"
    by (simp add: ordenar_por_desempenho_whole)
  have ys_ms: "mset ys = mset xs"
    unfolding ys by (rule qsort_result_mset [OF perm])
  have ys_set: "set ys = set xs" by (rule mset_eq_setD [OF ys_ms])
  have ys_len: "\<not> length ys \<le> 1" using mset_eq_length [OF ys_ms] False by simp
  have ys_nonan: "\<forall>r\<in>set ys. \<not> is_nan (media_final r)" using nonan ys_set by simp
  have ys_cons: "compar_consistent comparar_desempenho (set ys)"
    by (rule comparar_desempenho_consistent [OF ys_nonan])
  have zs_ms: "mset ?zs = mset ys" by (rule qsort_result_mset [OF perm])
  have zs_set: "set ?zs = set ys" by (rule mset_eq_setD [OF zs_ms])
  have ys_sorted: "sorted (map ?key ys)"
    unfolding ys using qsort_result_sorted [OF sorts nonan] ys_nonan [unfolded ys]
    by (rule sorted_by_key)
  have zs_sorted: "sorted (map ?key ?zs)"
    using qsort_result_sorted [OF sorts ys_nonan] ys_nonan [folded zs_set]
    by (rule sorted_by_key)
  have zs_stable: "filter (\<lambda>x. ?key a = ?key x) ?zs = filter (\<lambda>x. ?key a = ?key x) ys"
    if "a \<in> set ?zs" for a
  proof -
    from that have a: "a \<in> set ys" by (simp only: zs_set)
    have eq: "(?key a = ?key x) = (comparar_desempenho a x = 0)" if "x \<in> set ys" for x
      using that a ys_nonan by (auto simp: comparar_desempenho_def flt_def fgt_def)
    have "filter (\<lambda>x. comparar_desempenho a x = 0) ?zs =
        filter (\<lambda>x. comparar_desempenho a x = 0) ys"
      using stable ys_cons a unfolding qsort_stable_def by blast
    moreover have "filter (\<lambda>x. ?key a = ?key x) ?zs =
        filter (\<lambda>x. comparar_desempenho a x = 0) ?zs"
      by (rule filter_cong [OF refl]) (simp only: zs_set eq)
    moreover have "filter (\<lambda>x. ?key a = ?key x) ys =
        filter (\<lambda>x. comparar_desempenho a x = 0) ys"
      by (rule filter_cong [OF refl]) (simp only: eq)
    ultimately show ?thesis by simp
  qed
  have "sort_key ?key ys = ?zs"
    using zs_ms zs_stable zs_sorted by (rule properties_for_sort_key)
  moreover have "sort_key ?key ys = ys"
    using ys_sorted by (rule sort_key_id_if_sorted)
  ultimately have "?zs = ys" by simp
  with ys_len show ?thesis
    by (simp add: ordenar_por_desempenho_whole)
qed

text \<open>
  Claim C9, amended, at four records with two ties: the scores -0.0, 5.0, +0.0, 5.0 of
  the records 1 to 4 come out in the order 2, 4, 1, 3 and stay so.
\<close>

theorem ordenar_por_desempenho_idempotent_witness:
  "ordenar_por_desempenho qsort_merge
     (Some [\<lparr>id_aluno = 1, media_final = 0x80000000\<rparr>,
           \<lparr>id_aluno = 2, media_final = 0x40A00000\<rparr>,
           \<lparr>id_aluno = 3, media_final = 0x00000000\<rparr>,
           \<lparr>id_aluno = 4, media_final = 0x40A00000\<rparr>]) 4 =
   Inr (Some [\<lparr>id_aluno = 2, media_final = 0x40A00000\<rparr>,
              \<lparr>id_aluno = 4, media_final = 0x40A00000\<rparr>,
              \<lparr>id_aluno = 1, media_final = 0x80000000\<rparr>,
              \<lparr>id_aluno = 3, media_final = 0x00000000\<rparr>], 5) \<and>
   ordenar_por_desempenho qsort_merge
     (Some [\<lparr>id_aluno = 2, media_final = 0x40A00000\<rparr>,
           \<lparr>id_aluno = 4, media_final = 0x40A00000\<rparr>,
           \<lparr>id_aluno = 1, media_final = 0x80000000\<rparr>,
           \<lparr>id_aluno = 3, media_final = 0x00000000\<rparr>]) 4 =
   Inr (Some [\<lparr>id_aluno = 2, media_final = 0x40A00000\<rparr>,
              \<lparr>id_aluno = 4, media_final = 0x40A00000\<rparr>,
              \<lparr>id_aluno = 1, media_final = 0x80000000\<rparr>,
              \<lparr>id_aluno = 3, media_final = 0x00000000\<rparr>], 4)"
proof -
  let ?xs = "[\<lparr>id_aluno = 1, media_final = 0x80000000\<rparr>,
            \<lparr>id_aluno = 2, media_final = 0x40A00000\<rparr>,
            \<lparr>id_aluno = 3, media_final = 0x00000000\<rparr>,
            \<lparr>id_aluno = 4, media_final = 0x40A00000\<rparr>]"
  let ?ys = "[\<lparr>id_aluno = 2, media_final = 0x40A00000\<rparr>,
            \<lparr>id_aluno = 4, media_final = 0x40A00000\<rparr>,
            \<lparr>id_aluno = 1, media_final = 0x80000000\<rparr>,
            \<lparr>id_aluno = 3, media_final = 0x00000000\<rparr>]"
  have nonan: "\<forall>r\<in>set ?xs. \<not> is_nan (media_final r)"
    by (simp add: is_nan_def fmag_def)
  have first: "ordenar_por_desempenho qsort_merge (Some ?xs) (int (length ?xs)) = Inr (Some ?ys, 5)"
    by code_simp
  have calls: "snd (qsort_merge comparar_desempenho ?ys) = 4"
    by code_simp
  from ordenar_por_desempenho_idempotent
    [OF qsort_merge_sorts qsort_merge_permutes qsort_merge_stable nonan first]
  obtain k' where "ordenar_por_desempenho qsort_merge (Some ?ys) (int (length ?ys)) = Inr (Some ?ys, k')"
    by blast
  then have "ordenar_por_desempenho qsort_merge (Some ?ys) 4 = Inr (Some ?ys, 4)"
    using calls by (simp add: ordenar_por_desempenho_def)
  with first show ?thesis by simp
qed

end
